theory Spec2Isabelle
  imports Complex_Main "HOL-Library.Multiset"
begin

section \<open>Data model\<close>

text \<open>
  The view component \<^verbatim>\<open>AppContent\<close> of \<^verbatim>\<open>src/App.tsx\<close> (the unnamed second copy of
  the file has the same \<^verbatim>\<open>updateRoutes\<close> and \<^verbatim>\<open>handleSelectDestination\<close>) keeps React
  state, one mutable ref (\<^verbatim>\<open>lastCalcLocation\<close>) and calls three services.  The types
  \<^verbatim>\<open>Coordinates\<close>, \<^verbatim>\<open>EnrichedDestination\<close> and the route object are declared outside the
  component; the records below have the fields the component reads and writes.
  JavaScript numbers are modelled as reals: finite doubles, rounding not modelled.
  An optional field (\<^verbatim>\<open>undefined\<close>) and a nullable value (\<^verbatim>\<open>null\<close>) are \<open>option\<close>s.
\<close>

record Coordinates =
  lng :: real
  lat :: real

datatype category = Cafe | Bar

record Route =
  distance :: real
  duration :: real
  geometry :: "(real \<times> real) list option"   \<comment> \<open>\<^verbatim>\<open>geometry?.coordinates\<close>\<close>
  steps :: "string list"
  isEstimate :: bool                           \<comment> \<open>an absent flag is falsy\<close>
  elevationGain :: "real option"
  viaWaypoint :: "Coordinates option"

record EnrichedDestination =
  dest_id :: string                            \<comment> \<open>the field \<^verbatim>\<open>id\<close>\<close>
  name :: string
  category :: category
  coordinates :: Coordinates
  openingHours :: string                       \<comment> \<open>opaque to the handlers below\<close>
  elevation :: "real option"
  route :: "Route option"
  preferredWaypoints :: "Coordinates list option"
  linkedScenicRouteId :: "string option"

text \<open>
  Calls that leave the component, in the order they are made: camera commands on the
  map, the two service requests that the handlers await, and \<^verbatim>\<open>console.error\<close>.
\<close>

datatype effect =
    FlyTo Coordinates real
  | FitBounds "(real \<times> real) list" bool
  | CurateDestinations "EnrichedDestination list"
  | GetWalkingRoute Coordinates Coordinates bool bool "Coordinates list option"
      "real option" "real option"
  | ConsoleError

record AppState =
  map_current :: bool                          \<comment> \<open>\<^verbatim>\<open>map.current\<close> is not null\<close>
  lastCalcLocation :: "Coordinates option"     \<comment> \<open>the ref \<^verbatim>\<open>lastCalcLocation.current\<close>\<close>
  userLocation :: "Coordinates option"
  userElevation :: "real option"
  destinations :: "EnrichedDestination list"
  selectedDestination :: "EnrichedDestination option"
  isLoading :: bool
  sidebarOpen :: bool
  isMobile :: bool
  effects :: "effect list"

text \<open>How an awaited promise settles, and how an async handler's own promise settles.\<close>

datatype 'a settled = Fulfilled 'a | Rejected

datatype outcome = Returned | Threw

definition emit :: "effect \<Rightarrow> AppState \<Rightarrow> AppState" where
  "emit e s = s\<lparr>effects := effects s @ [e]\<rparr>"

fun curationRequests :: "effect list \<Rightarrow> EnrichedDestination list list" where
  "curationRequests [] = []"
| "curationRequests (CurateDestinations ps # es) = ps # curationRequests es"
| "curationRequests (_ # es) = curationRequests es"

fun walkingRequests :: "effect list \<Rightarrow> nat" where
  "walkingRequests [] = 0"
| "walkingRequests (GetWalkingRoute _ _ _ _ _ _ _ # es) = Suc (walkingRequests es)"
| "walkingRequests (_ # es) = walkingRequests es"

section \<open>The re-curation pipeline: \<^verbatim>\<open>updateRoutes\<close>\<close>

text \<open>
  \<^verbatim>\<open>getDistance\<close> belongs to the routing service module and is a parameter here.
  Line 269: \<^verbatim>\<open>!lastCalcLocation.current || (userLocation && getDistance(...) > 20)\<close>.
\<close>

definition isLocChanged :: "(Coordinates \<Rightarrow> Coordinates \<Rightarrow> real) \<Rightarrow> AppState \<Rightarrow> bool" where
  "isLocChanged getDistance s =
     (case lastCalcLocation s of
        None \<Rightarrow> True
      | Some l \<Rightarrow> (case userLocation s of None \<Rightarrow> False | Some u \<Rightarrow> getDistance u l > 20))"

text \<open>Lines 274-280: the body of the \<^verbatim>\<open>map\<close> callback that attaches the estimate.\<close>

definition withEstimate ::
  "(Coordinates \<Rightarrow> Coordinates \<Rightarrow> real) \<Rightarrow> Coordinates \<Rightarrow> real option \<Rightarrow>
     EnrichedDestination \<Rightarrow> EnrichedDestination" where
  "withEstimate getDistance u uElev d =
     (let dist = getDistance u (coordinates d);
          estWalkDist = dist * 1.35;
          netElev = (case elevation d of
                       None \<Rightarrow> None
                     | Some de \<Rightarrow> (case uElev of None \<Rightarrow> None | Some ue \<Rightarrow> Some (de - ue)))
      in d\<lparr>route := Some \<lparr>distance = estWalkDist, duration = estWalkDist / 1.4,
                            geometry = Some [], steps = [], isEstimate = True,
                            elevationGain = netElev, viaWaypoint = None\<rparr>\<rparr>)"

text \<open>
  The synchronous part of \<^verbatim>\<open>updateRoutes\<close>, up to the \<^verbatim>\<open>await\<close> of line 281.  The effect
  runs after the render in which \<^verbatim>\<open>userLocation\<close> or \<^verbatim>\<open>userElevation\<close> changed, so the
  values its closure holds are those of the state at that moment.
\<close>

definition updateRoutes :: "(Coordinates \<Rightarrow> Coordinates \<Rightarrow> real) \<Rightarrow> AppState \<Rightarrow> AppState" where
  "updateRoutes getDistance s =
     (case userLocation s of
        None \<Rightarrow> s
      | Some u \<Rightarrow>
          if destinations s \<noteq> [] \<and> \<not> isLoading s \<and> isLocChanged getDistance s then
            (let s1 = s\<lparr>isLoading := True\<rparr>;
                 s2 = s1\<lparr>lastCalcLocation := Some u\<rparr>;
                 placesWithEstimates =
                   map (withEstimate getDistance u (userElevation s)) (destinations s)
             in emit (CurateDestinations placesWithEstimates) s2)
          else s)"

text \<open>
  Line 282 sorts the response in place with the comparator
  \<^verbatim>\<open>(a, b) => (a.route?.distance || Infinity) - (b.route?.distance || Infinity)\<close>.
  The comparator's values leave the finite numbers, so they get a type of their own.
\<close>

datatype number = Num real | Infinity | NegInfinity | NaN

fun minus_number :: "number \<Rightarrow> number \<Rightarrow> number" where
  "minus_number (Num a) (Num b) = Num (a - b)"
| "minus_number (Num a) Infinity = NegInfinity"
| "minus_number (Num a) NegInfinity = Infinity"
| "minus_number Infinity (Num b) = Infinity"
| "minus_number Infinity NegInfinity = Infinity"
| "minus_number Infinity Infinity = NaN"
| "minus_number NegInfinity (Num b) = NegInfinity"
| "minus_number NegInfinity Infinity = NegInfinity"
| "minus_number NegInfinity NegInfinity = NaN"
| "minus_number NaN _ = NaN"
| "minus_number _ NaN = NaN"

text \<open>
  \<^verbatim>\<open>a.route?.distance || Infinity\<close>: the left operand is replaced when it is falsy, which
  \<^verbatim>\<open>undefined\<close> is and the number \<^verbatim>\<open>0\<close> is too.
\<close>

definition distanceOrInfinity :: "EnrichedDestination \<Rightarrow> number" where
  "distanceOrInfinity a =
     (case route a of
        None \<Rightarrow> Infinity
      | Some r \<Rightarrow> if distance r = 0 then Infinity else Num (distance r))"

definition compareFn :: "EnrichedDestination \<Rightarrow> EnrichedDestination \<Rightarrow> number" where
  "compareFn a b = minus_number (distanceOrInfinity a) (distanceOrInfinity b)"

text \<open>
  \<^verbatim>\<open>Array.prototype.sort\<close> is the language's stable sort: \<open>a\<close> is placed after \<open>b\<close> when
  the comparator's value is greater than zero, and a \<^verbatim>\<open>NaN\<close> value counts as zero.
  It is modelled as a stable insertion sort.
\<close>

fun positive :: "number \<Rightarrow> bool" where
  "positive (Num x) = (x > 0)"
| "positive Infinity = True"
| "positive NegInfinity = False"
| "positive NaN = False"

fun insertSorted :: "('a \<Rightarrow> 'a \<Rightarrow> number) \<Rightarrow> 'a \<Rightarrow> 'a list \<Rightarrow> 'a list" where
  "insertSorted cmp x [] = [x]"
| "insertSorted cmp x (y # ys) =
     (if positive (cmp x y) then y # insertSorted cmp x ys else x # y # ys)"

definition array_sort :: "('a \<Rightarrow> 'a \<Rightarrow> number) \<Rightarrow> 'a list \<Rightarrow> 'a list" where
  "array_sort cmp xs = foldr (insertSorted cmp) xs []"

text \<open>
  Ascending by \<^verbatim>\<open>route.distance\<close>, an entry without a route after every entry with one:
  the order the sort is meant to establish, for two entries \<open>a\<close> before \<open>b\<close>.
\<close>

definition ascending :: "EnrichedDestination \<Rightarrow> EnrichedDestination \<Rightarrow> bool" where
  "ascending a b =
     (case route a of
        None \<Rightarrow> route b = None
      | Some ra \<Rightarrow> (case route b of None \<Rightarrow> True | Some rb \<Rightarrow> distance ra \<le> distance rb))"

text \<open>
  The rest of \<^verbatim>\<open>updateRoutes\<close>, run when the awaited curation request settles (lines
  282-288).  \<open>selected\<close> is the \<^verbatim>\<open>selectedDestination\<close> the closure has held since the
  effect started; the setters act on the state of the moment.  The \<^verbatim>\<open>catch\<close> logs and
  swallows, so this function's own promise always fulfils.
\<close>

definition updateRoutes_resume ::
  "EnrichedDestination option \<Rightarrow> EnrichedDestination list settled \<Rightarrow> AppState \<Rightarrow> AppState" where
  "updateRoutes_resume selected result s =
     (case result of
        Fulfilled response \<Rightarrow>
          (let curated = array_sort compareFn response;
               s1 = s\<lparr>destinations := curated\<rparr>;
               s2 = (case selected of
                       None \<Rightarrow> s1
                     | Some sel \<Rightarrow>
                         (case find (\<lambda>d. dest_id d = dest_id sel) curated of
                            None \<Rightarrow> s1
                          | Some updated \<Rightarrow> s1\<lparr>selectedDestination := Some updated\<rparr>))
           in s2\<lparr>isLoading := False\<rparr>)
      | Rejected \<Rightarrow> (emit ConsoleError s)\<lparr>isLoading := False\<rparr>)"

text \<open>
  React runs the effect again after every render in which \<^verbatim>\<open>userLocation\<close> or
  \<^verbatim>\<open>userElevation\<close> changed (its dependency list, line 292).
\<close>

definition userLocationChanged ::
  "(Coordinates \<Rightarrow> Coordinates \<Rightarrow> real) \<Rightarrow> Coordinates \<Rightarrow> AppState \<Rightarrow> AppState" where
  "userLocationChanged getDistance c s = updateRoutes getDistance (s\<lparr>userLocation := Some c\<rparr>)"

definition userElevationChanged ::
  "(Coordinates \<Rightarrow> Coordinates \<Rightarrow> real) \<Rightarrow> real \<Rightarrow> AppState \<Rightarrow> AppState" where
  "userElevationChanged getDistance e s = updateRoutes getDistance (s\<lparr>userElevation := Some e\<rparr>)"

datatype update = LocationUpdate Coordinates | ElevationUpdate real

fun applyUpdate :: "(Coordinates \<Rightarrow> Coordinates \<Rightarrow> real) \<Rightarrow> update \<Rightarrow> AppState \<Rightarrow> AppState" where
  "applyUpdate getDistance (LocationUpdate c) s = userLocationChanged getDistance c s"
| "applyUpdate getDistance (ElevationUpdate e) s = userElevationChanged getDistance e s"

fun applyUpdates :: "(Coordinates \<Rightarrow> Coordinates \<Rightarrow> real) \<Rightarrow> update list \<Rightarrow> AppState \<Rightarrow> AppState" where
  "applyUpdates getDistance [] s = s"
| "applyUpdates getDistance (u # us) s = applyUpdates getDistance us (applyUpdate getDistance u s)"

section \<open>The selection handler: \<^verbatim>\<open>handleSelectDestination\<close>\<close>

text \<open>
  The handler is a \<^verbatim>\<open>useCallback\<close> over \<^verbatim>\<open>[userLocation, isMobile, userElevation]\<close>: it
  reads the three values of the render that created it.  The sidebar gets the handler
  of the current render; a marker keeps the one of the render that drew it.  The three
  values are therefore arguments.  \<^verbatim>\<open>setUserLocation\<close> is only ever called with
  coordinates, so while the state's location is null every handler holds null.
  Line 298: \<^verbatim>\<open>!destination.route || destination.route.isEstimate\<close>.
\<close>

definition needsRoute :: "EnrichedDestination \<Rightarrow> bool" where
  "needsRoute destination = (case route destination of None \<Rightarrow> True | Some r \<Rightarrow> isEstimate r)"

text \<open>Lines 295-301, up to the \<^verbatim>\<open>await\<close>.\<close>

definition handleSelectDestination ::
  "Coordinates option \<Rightarrow> bool \<Rightarrow> real option \<Rightarrow> EnrichedDestination \<Rightarrow> AppState \<Rightarrow> AppState" where
  "handleSelectDestination cUserLocation cIsMobile cUserElevation destination s =
     (let s1 = s\<lparr>selectedDestination := Some destination\<rparr>;
          s2 = (if \<not> cIsMobile then s1\<lparr>sidebarOpen := True\<rparr> else s1);
          s3 = (if map_current s2 then emit (FlyTo (coordinates destination) 14) s2 else s2)
      in case cUserLocation of
           None \<Rightarrow> s3
         | Some u \<Rightarrow>
             if needsRoute destination then
               emit (GetWalkingRoute u (coordinates destination) False False
                       (preferredWaypoints destination) cUserElevation (elevation destination))
                 (s3\<lparr>isLoading := True\<rparr>)
             else s3)"

text \<open>
  Lines 302-313, run when the awaited routing request settles.  The \<^verbatim>\<open>try\<close> has a
  \<^verbatim>\<open>finally\<close> and no \<^verbatim>\<open>catch\<close>: after a rejection the flag is reset and the rejection
  goes on to the handler's caller.
\<close>

definition handleSelectDestination_resume ::
  "bool \<Rightarrow> EnrichedDestination \<Rightarrow> Route option settled \<Rightarrow> AppState \<Rightarrow> AppState \<times> outcome" where
  "handleSelectDestination_resume cIsMobile destination result s =
     (case result of
        Fulfilled (Some realRoute) \<Rightarrow>
          (let updated = destination\<lparr>route := Some realRoute\<rparr>;
               s1 = s\<lparr>selectedDestination := Some updated\<rparr>;
               s2 = s1\<lparr>destinations :=
                         map (\<lambda>d. if dest_id d = dest_id destination then updated else d)
                           (destinations s1)\<rparr>;
               s3 = (case geometry realRoute of
                       None \<Rightarrow> s2
                     | Some coords \<Rightarrow>
                         if map_current s2 then emit (FitBounds coords cIsMobile) s2 else s2)
           in (s3\<lparr>isLoading := False\<rparr>, Returned))
      | Fulfilled None \<Rightarrow> (s\<lparr>isLoading := False\<rparr>, Returned)
      | Rejected \<Rightarrow> (s\<lparr>isLoading := False\<rparr>, Threw))"

section \<open>The category filter: \<^verbatim>\<open>handleCategoryFilter\<close>\<close>

text \<open>
  \<^verbatim>\<open>FEATURED_CAFES\<close> is the static seed list of the constants module, a parameter here.
  The handler is an ordinary function of the render, so it reads the current state.
\<close>

definition handleCategoryFilter ::
  "EnrichedDestination list \<Rightarrow> category \<Rightarrow> AppState \<Rightarrow> AppState" where
  "handleCategoryFilter FEATURED_CAFES ty s =
     (let filtered = filter (\<lambda>p. category p = ty) FEATURED_CAFES;
          s1 = s\<lparr>destinations := filtered\<rparr>;
          s2 = s1\<lparr>selectedDestination := None\<rparr>
      in if \<not> isMobile s2 then s2\<lparr>sidebarOpen := True\<rparr> else s2)"

text \<open>The unnamed second copy of the file also flies to the first match (lines 444-453).\<close>

definition handleCategoryFilter_flyTo ::
  "EnrichedDestination list \<Rightarrow> category \<Rightarrow> AppState \<Rightarrow> AppState" where
  "handleCategoryFilter_flyTo FEATURED_CAFES ty s =
     (let filtered = filter (\<lambda>p. category p = ty) FEATURED_CAFES;
          s3 = handleCategoryFilter FEATURED_CAFES ty s
      in case filtered of
           [] \<Rightarrow> s3
         | first # _ \<Rightarrow> if map_current s3 then emit (FlyTo (coordinates first) 12) s3 else s3)"

section \<open>Example values\<close>

text \<open>
  A distance function to run the pipeline on, constructors for list entries and routes,
  the state of a fresh view, and that state with a first location fix and two places.
\<close>

definition exampleDistance :: "Coordinates \<Rightarrow> Coordinates \<Rightarrow> real" where
  "exampleDistance a b = \<bar>lng a - lng b\<bar> + \<bar>lat a - lat b\<bar>"

definition mkDest :: "string \<Rightarrow> category \<Rightarrow> real \<Rightarrow> real \<Rightarrow> Route option \<Rightarrow> EnrichedDestination" where
  "mkDest i c x y r =
     \<lparr>dest_id = i, name = i, category = c, coordinates = \<lparr>lng = x, lat = y\<rparr>,
      openingHours = [], elevation = None, route = r, preferredWaypoints = None,
      linkedScenicRouteId = None\<rparr>"

definition mkRoute :: "real \<Rightarrow> bool \<Rightarrow> Route" where
  "mkRoute d est =
     \<lparr>distance = d, duration = d / 1.4, geometry = Some [], steps = [], isEstimate = est,
      elevationGain = None, viaWaypoint = None\<rparr>"

definition initialState :: AppState where
  "initialState =
     \<lparr>map_current = True, lastCalcLocation = None, userLocation = None, userElevation = None,
      destinations = [], selectedDestination = None, isLoading = False, sidebarOpen = True,
      isMobile = False, effects = []\<rparr>"

definition origin :: Coordinates where
  "origin = \<lparr>lng = 0, lat = 0\<rparr>"

definition firstFix :: AppState where
  "firstFix = initialState\<lparr>userLocation := Some origin,
            destinations := [mkDest ''a'' Cafe 100 0 None, mkDest ''b'' Bar 0 40 None]\<rparr>"

text \<open>
  Three list entries: one whose estimate is 0 (the user stands on it), one with an
  estimate of 6.75, one without a route; \<open>placeB\<close> is the second place of \<open>firstFix\<close>.
  In \<open>atDoor\<close> the user stands on the first of two destinations that have no routes
  yet.
\<close>

definition atUser :: EnrichedDestination where
  "atUser = mkDest ''a'' Cafe 0 0 (Some (mkRoute 0 True))"

definition away :: EnrichedDestination where
  "away = mkDest ''b'' Bar 5 0 (Some (mkRoute 6.75 True))"

definition unrouted :: EnrichedDestination where
  "unrouted = mkDest ''c'' Cafe 9 9 None"

definition placeB :: EnrichedDestination where
  "placeB = mkDest ''b'' Bar 0 40 None"

definition atDoor :: AppState where
  "atDoor = initialState\<lparr>userLocation := Some origin,
              destinations := [mkDest ''a'' Cafe 0 0 None, mkDest ''b'' Bar 5 0 None]\<rparr>"

text \<open>
  States after a recompute at \<open>origin\<close> (settled, then moved 30 east, or with a
  selection), a state without a location fix, and the state in which the first
  curation request is pending; a route as the routing service returns it.
\<close>

definition settledState :: AppState where
  "settledState = initialState\<lparr>userLocation := Some origin, lastCalcLocation := Some origin,
            destinations := [away, unrouted]\<rparr>"

definition confirmedRoute :: Route where
  "confirmedRoute =
     \<lparr>distance = 8, duration = 6, geometry = Some [(0, 0), (5, 0)], steps = [''Walk east''],
      isEstimate = False, elevationGain = None, viaWaypoint = None\<rparr>"

definition noFixState :: AppState where
  "noFixState = initialState\<lparr>destinations := [unrouted, away]\<rparr>"

definition pendingState :: AppState where
  "pendingState = updateRoutes exampleDistance firstFix"

definition movedState :: AppState where
  "movedState = settledState\<lparr>userLocation := Some \<lparr>lng = 30, lat = 0\<rparr>\<rparr>"

definition exampleUpdates :: "update list" where
  "exampleUpdates = [LocationUpdate \<lparr>lng = 50, lat = 0\<rparr>, ElevationUpdate 12,
                     LocationUpdate \<lparr>lng = 90, lat = 0\<rparr>]"

definition exampleSeed :: "EnrichedDestination list" where
  "exampleSeed = [mkDest ''bar1'' Bar 1 1 None, mkDest ''cafe1'' Cafe 2 2 None,
                  mkDest ''bar2'' Bar 3 3 None, mkDest ''cafe2'' Cafe 4 4 None,
                  mkDest ''bar3'' Bar 5 5 None]"

definition selectedState :: AppState where
  "selectedState = settledState\<lparr>selectedDestination := Some away\<rparr>"

section \<open>Properties\<close>

lemma updateRoutes_fires:
  assumes "userLocation s = Some u" and "destinations s \<noteq> []" and "\<not> isLoading s"
    and "isLocChanged getDistance s"
  shows "updateRoutes getDistance s =
           s\<lparr>isLoading := True, lastCalcLocation := Some u,
             effects := effects s @
               [CurateDestinations (map (withEstimate getDistance u (userElevation s)) (destinations s))]\<rparr>"
  using assms by (simp add: updateRoutes_def emit_def Let_def)

lemma curationRequests_append:
  "curationRequests (es @ fs) = curationRequests es @ curationRequests fs"
  by (induction es rule: curationRequests.induct) simp_all

subsection \<open>The estimate sent to curation\<close>

lemma withEstimate_route:
  "\<exists>r. withEstimate getDistance u uElev d = d\<lparr>route := Some r\<rparr>
      \<and> distance r = getDistance u (coordinates d) * 1.35
      \<and> duration r = getDistance u (coordinates d) * 1.35 / 1.4
      \<and> isEstimate r"
proof -
  let ?r = "the (route (withEstimate getDistance u uElev d))"
  have "withEstimate getDistance u uElev d = d\<lparr>route := Some ?r\<rparr>"
    by (simp add: withEstimate_def Let_def)
  moreover have "distance ?r = getDistance u (coordinates d) * 1.35"
    by (simp add: withEstimate_def Let_def)
  moreover have "duration ?r = getDistance u (coordinates d) * 1.35 / 1.4"
    by (simp add: withEstimate_def Let_def)
  moreover have "isEstimate ?r"
    by (simp add: withEstimate_def Let_def)
  ultimately show ?thesis by blast
qed

text \<open>
  Claim C1.  When the pipeline runs for user position \<open>u\<close>, the list it sends to the
  curation service has one entry per destination, in order; each entry is the destination
  with its route replaced by an estimate whose distance is \<open>getDistance u\<close> of the
  destination's coordinates times 1.35 and whose duration is that product divided by 1.4.
\<close>

theorem estimate_distance_duration:
  assumes "userLocation s = Some u" and "destinations s \<noteq> []" and "\<not> isLoading s"
    and "isLocChanged getDistance s"
  shows "\<exists>ps. effects (updateRoutes getDistance s) = effects s @ [CurateDestinations ps]
           \<and> length ps = length (destinations s)
           \<and> (\<forall>i < length ps. \<exists>r. ps ! i = (destinations s ! i)\<lparr>route := Some r\<rparr>
                 \<and> distance r = getDistance u (coordinates (destinations s ! i)) * 1.35
                 \<and> duration r = getDistance u (coordinates (destinations s ! i)) * 1.35 / 1.4
                 \<and> isEstimate r)"
proof -
  let ?ps = "map (withEstimate getDistance u (userElevation s)) (destinations s)"
  have "effects (updateRoutes getDistance s) = effects s @ [CurateDestinations ?ps]"
    using assms by (simp add: updateRoutes_fires)
  moreover have "length ?ps = length (destinations s)" by simp
  moreover have "\<forall>i < length ?ps. \<exists>r. ?ps ! i = (destinations s ! i)\<lparr>route := Some r\<rparr>
                 \<and> distance r = getDistance u (coordinates (destinations s ! i)) * 1.35
                 \<and> duration r = getDistance u (coordinates (destinations s ! i)) * 1.35 / 1.4
                 \<and> isEstimate r"
    using withEstimate_route by simp
  ultimately show ?thesis by blast
qed

theorem estimate_distance_duration_witness:
  "userLocation firstFix = Some origin \<and> destinations firstFix \<noteq> [] \<and> \<not> isLoading firstFix
   \<and> isLocChanged exampleDistance firstFix
   \<and> (\<exists>ps r. effects (updateRoutes exampleDistance firstFix) = [CurateDestinations ps]
        \<and> length ps = 2
        \<and> ps ! 1 = (mkDest ''b'' Bar 0 40 None)\<lparr>route := Some r\<rparr>
        \<and> distance r = 54 \<and> duration r = 54 / 1.4 \<and> isEstimate r)"
proof -
  have h: "userLocation firstFix = Some origin" "destinations firstFix \<noteq> []" "\<not> isLoading firstFix"
    "isLocChanged exampleDistance firstFix"
    by (simp_all add: firstFix_def initialState_def isLocChanged_def)
  from estimate_distance_duration [OF h] obtain ps where
    ps: "effects (updateRoutes exampleDistance firstFix) = effects firstFix @ [CurateDestinations ps]"
      "length ps = length (destinations firstFix)"
      "\<forall>i < length ps. \<exists>r. ps ! i = (destinations firstFix ! i)\<lparr>route := Some r\<rparr>
                 \<and> distance r = exampleDistance origin (coordinates (destinations firstFix ! i)) * 1.35
                 \<and> duration r = exampleDistance origin (coordinates (destinations firstFix ! i)) * 1.35 / 1.4
                 \<and> isEstimate r"
    by blast
  have len: "length ps = 2" using ps(2) by (simp add: firstFix_def)
  from ps(3) len obtain r where
    r: "ps ! 1 = (destinations firstFix ! 1)\<lparr>route := Some r\<rparr>"
       "distance r = exampleDistance origin (coordinates (destinations firstFix ! 1)) * 1.35"
       "duration r = exampleDistance origin (coordinates (destinations firstFix ! 1)) * 1.35 / 1.4"
       "isEstimate r"
    by (metis one_less_numeral_iff semiring_norm(76))
  have d1: "destinations firstFix ! 1 = mkDest ''b'' Bar 0 40 None" by (simp add: firstFix_def)
  have c1: "exampleDistance origin (coordinates (mkDest ''b'' Bar 0 40 None)) = 40"
    by (simp add: exampleDistance_def mkDest_def origin_def)
  have r1: "ps ! 1 = (mkDest ''b'' Bar 0 40 None)\<lparr>route := Some r\<rparr>" using r(1) d1 by simp
  have r2: "distance r = 54" using r(2) d1 c1 by simp
  have r3: "duration r = 54 / 1.4" using r(3) d1 c1 by simp
  have e: "effects (updateRoutes exampleDistance firstFix) = [CurateDestinations ps]"
    using ps(1) by (simp add: firstFix_def initialState_def)
  show ?thesis using h e len r1 r2 r3 r(4) by blast
qed

subsection \<open>What the sort does\<close>

lemma set_insertSorted: "set (insertSorted cmp x ys) = insert x (set ys)"
  by (induction ys) auto

lemma mset_insertSorted: "mset (insertSorted cmp x ys) = add_mset x (mset ys)"
  by (induction ys) auto

lemma mset_array_sort: "mset (array_sort cmp xs) = mset xs"
  by (induction xs) (simp_all add: array_sort_def mset_insertSorted)

lemma compareFn_total: "positive (compareFn x y) \<Longrightarrow> \<not> positive (compareFn y x)"
  by (auto simp: compareFn_def distanceOrInfinity_def split: option.splits if_splits)

lemma compareFn_trans:
  "\<not> positive (compareFn x y) \<Longrightarrow> \<not> positive (compareFn y z) \<Longrightarrow> \<not> positive (compareFn x z)"
  by (auto simp: compareFn_def distanceOrInfinity_def split: option.splits if_splits)

lemma sorted_insertSorted:
  "sorted_wrt (\<lambda>a b. \<not> positive (compareFn a b)) ys \<Longrightarrow>
   sorted_wrt (\<lambda>a b. \<not> positive (compareFn a b)) (insertSorted compareFn x ys)"
proof (induction ys)
  case Nil
  then show ?case by simp
next
  case (Cons y ys)
  show ?case
  proof (cases "positive (compareFn x y)")
    case True
    with Cons show ?thesis
      by (auto simp: set_insertSorted dest: compareFn_total)
  next
    case False
    have "\<not> positive (compareFn x z)" if "z \<in> set ys" for z
      using that False Cons.prems compareFn_trans [of x y z] by auto
    with False Cons.prems show ?thesis
      by auto
  qed
qed

lemma sorted_array_sort:
  "sorted_wrt (\<lambda>a b. \<not> positive (compareFn a b)) (array_sort compareFn xs)"
proof (induction xs)
  case Nil
  show ?case by (simp add: array_sort_def)
next
  case (Cons x xs)
  then show ?case using sorted_insertSorted [of "array_sort compareFn xs" x]
    by (simp add: array_sort_def)
qed

lemma ascending_iff:
  assumes "\<And>r. route a = Some r \<Longrightarrow> distance r \<noteq> 0" and "\<And>r. route b = Some r \<Longrightarrow> distance r \<noteq> 0"
  shows "\<not> positive (compareFn a b) \<longleftrightarrow> ascending a b"
  using assms
  by (auto simp: compareFn_def distanceOrInfinity_def ascending_def split: option.splits)

lemma array_sort_ascending_nonzero:
  assumes "\<And>d r. d \<in> set xs \<Longrightarrow> route d = Some r \<Longrightarrow> distance r \<noteq> 0"
  shows "sorted_wrt ascending (array_sort compareFn xs)"
proof -
  have s: "set (array_sort compareFn xs) = set xs"
    using mset_array_sort [of compareFn xs] by (metis set_mset_mset)
  show ?thesis
  proof (rule sorted_wrt_mono_rel [OF _ sorted_array_sort])
    fix a b
    assume "a \<in> set (array_sort compareFn xs)" "b \<in> set (array_sort compareFn xs)"
      "\<not> positive (compareFn a b)"
    then show "ascending a b"
      using assms s ascending_iff [of a b] by blast
  qed
qed

text \<open>
  Claim C2.  The list installed after a successful curation response is not always
  ascending by \<^verbatim>\<open>route.distance\<close> with the entries lacking a distance last: the
  comparator reads a distance of \<open>0\<close> as missing.  With the user at the first
  destination's coordinates the pipeline sends \<open>[atUser, away]\<close>, estimates 0 and
  6.75; for that list as the response the installed list is \<open>[away, atUser]\<close>, and for
  the response \<open>[unrouted, atUser, away]\<close> it puts \<open>unrouted\<close>, which has no distance,
  before \<open>atUser\<close>, which has one.
\<close>

theorem sort_zero_distance_last:
  "curationRequests (effects (updateRoutes exampleDistance atDoor)) = [[atUser, away]]
   \<and> destinations (updateRoutes_resume None (Fulfilled [atUser, away])
        (updateRoutes exampleDistance atDoor)) = [away, atUser]
   \<and> destinations (updateRoutes_resume None (Fulfilled [unrouted, atUser, away])
        (updateRoutes exampleDistance atDoor)) = [away, unrouted, atUser]
   \<and> map_option distance (route away) = Some 6.75
   \<and> map_option distance (route unrouted) = None
   \<and> map_option distance (route atUser) = Some 0"
proof -
  have u: "updateRoutes exampleDistance atDoor
             = atDoor\<lparr>isLoading := True, lastCalcLocation := Some origin,
                 effects := [CurateDestinations [atUser, away]]\<rparr>"
    by (simp add: updateRoutes_def isLocChanged_def emit_def withEstimate_def atDoor_def
        initialState_def exampleDistance_def origin_def atUser_def away_def mkDest_def mkRoute_def)
  have 1: "curationRequests (effects (updateRoutes exampleDistance atDoor)) = [[atUser, away]]"
    by (simp add: u)
  have k: "distanceOrInfinity atUser = Infinity" "distanceOrInfinity away = Num 6.75"
    "distanceOrInfinity unrouted = Infinity"
    by (simp_all add: distanceOrInfinity_def atUser_def away_def unrouted_def mkDest_def mkRoute_def)
  have 2: "array_sort compareFn [atUser, away] = [away, atUser]"
    by (simp add: array_sort_def compareFn_def k)
  have 3: "array_sort compareFn [unrouted, atUser, away] = [away, unrouted, atUser]"
    by (simp add: array_sort_def compareFn_def k)
  have 4: "destinations (updateRoutes_resume None (Fulfilled xs) s) = array_sort compareFn xs"
    for xs s by (simp add: updateRoutes_resume_def Let_def)
  have 5: "map_option distance (route away) = Some 6.75" "map_option distance (route unrouted) = None"
    "map_option distance (route atUser) = Some 0"
    by (simp_all add: atUser_def away_def unrouted_def mkDest_def mkRoute_def)
  from 1 2 3 4 5 show ?thesis by simp
qed

subsection \<open>Selecting a destination\<close>

lemma walkingRequests_append:
  "walkingRequests (es @ fs) = walkingRequests es + walkingRequests fs"
  by (induction es rule: walkingRequests.induct) simp_all

lemma handleSelectDestination_no_location:
  "handleSelectDestination None cIsMobile cUserElevation destination s =
     (let s2 = s\<lparr>selectedDestination := Some destination,
                 sidebarOpen := (if cIsMobile then sidebarOpen s else True)\<rparr>
      in if map_current s then emit (FlyTo (coordinates destination) 14) s2 else s2)"
  by (simp add: handleSelectDestination_def Let_def)

text \<open>
  Claim C3, as stated: a selection of a destination without a route issues exactly one
  walking-route request.  It does not when the handler holds no user location.
\<close>

theorem select_unrouted_without_location_counterexample:
  "route unrouted = None
   \<and> walkingRequests (effects (handleSelectDestination None False None unrouted initialState)) \<noteq> 1"
  by (simp add: handleSelectDestination_def unrouted_def mkDest_def initialState_def emit_def)

lemma handleSelectDestination_resume_failed:
  "result = Fulfilled None \<or> result = Rejected \<Longrightarrow>
     fst (handleSelectDestination_resume cIsMobile d result t) = t\<lparr>isLoading := False\<rparr>"
  by (auto simp: handleSelectDestination_resume_def)

lemma handleSelectDestination_resume_route:
  "fst (handleSelectDestination_resume cIsMobile d (Fulfilled (Some r)) t)
     = (let t2 = t\<lparr>selectedDestination := Some (d\<lparr>route := Some r\<rparr>),
                     destinations := map (\<lambda>x. if dest_id x = dest_id d then d\<lparr>route := Some r\<rparr> else x)
                                       (destinations t),
                     isLoading := False\<rparr>
        in case geometry r of
             None \<Rightarrow> t2
           | Some coords \<Rightarrow> if map_current t then emit (FitBounds coords cIsMobile) t2 else t2)"
  by (cases "geometry r") (simp_all add: handleSelectDestination_resume_def Let_def emit_def)

text \<open>
  Claim C3, amended.  For every selection of a destination whose route is absent or an
  estimate, by a handler that holds a user location, exactly one walking-route request
  is issued before a route that is not an estimate is rendered: the step up to the
  \<^verbatim>\<open>await\<close> issues the one request and leaves the destination selected as it was; the
  continuation issues none, whatever the request's outcome, and keeps the selection and
  the list unless the request returned a route, which it installs on the selection and
  on the list entries with the same id; so a selection that shows a route that is not
  an estimate shows the route that request returned.  For every selection of a
  destination that holds a route that is not an estimate, no request is issued.
\<close>

theorem select_issues_one_request:
  "walkingRequests (effects (handleSelectDestination cUserLocation cIsMobile cUserElevation d s))
     = walkingRequests (effects s) + (if cUserLocation \<noteq> None \<and> needsRoute d then 1 else 0)
   \<and> selectedDestination (handleSelectDestination cUserLocation cIsMobile cUserElevation d s) = Some d
   \<and> destinations (handleSelectDestination cUserLocation cIsMobile cUserElevation d s) = destinations s
   \<and> walkingRequests (effects (fst (handleSelectDestination_resume cIsMobile d result t)))
       = walkingRequests (effects t)
   \<and> walkingRequests (effects (fst (handleSelectDestination_resume cIsMobile d result
         (handleSelectDestination cUserLocation cIsMobile cUserElevation d s))))
       = walkingRequests (effects s) + (if cUserLocation \<noteq> None \<and> needsRoute d then 1 else 0)
   \<and> selectedDestination (fst (handleSelectDestination_resume cIsMobile d result t))
       = (case result of
            Fulfilled (Some realRoute) \<Rightarrow> Some (d\<lparr>route := Some realRoute\<rparr>)
          | _ \<Rightarrow> selectedDestination t)
   \<and> destinations (fst (handleSelectDestination_resume cIsMobile d result t))
       = (case result of
            Fulfilled (Some realRoute) \<Rightarrow>
              map (\<lambda>x. if dest_id x = dest_id d then d\<lparr>route := Some realRoute\<rparr> else x) (destinations t)
          | _ \<Rightarrow> destinations t)
   \<and> (needsRoute d
        \<and> selectedDestination (fst (handleSelectDestination_resume cIsMobile d result
             (handleSelectDestination cUserLocation cIsMobile cUserElevation d s))) = Some x
        \<and> \<not> needsRoute x
       \<longrightarrow> (\<exists>realRoute. result = Fulfilled (Some realRoute) \<and> \<not> isEstimate realRoute
              \<and> x = d\<lparr>route := Some realRoute\<rparr>))"
proof -
  let ?s' = "handleSelectDestination cUserLocation cIsMobile cUserElevation d s"
  have 1: "walkingRequests (effects ?s')
     = walkingRequests (effects s) + (if cUserLocation \<noteq> None \<and> needsRoute d then 1 else 0)"
    by (cases cUserLocation)
       (simp_all add: handleSelectDestination_def Let_def emit_def walkingRequests_append)
  have 2: "selectedDestination ?s' = Some d"
    by (cases cUserLocation) (simp_all add: handleSelectDestination_def Let_def emit_def)
  have 3: "destinations ?s' = destinations s"
    by (cases cUserLocation) (simp_all add: handleSelectDestination_def Let_def emit_def)
  have 4: "walkingRequests (effects (fst (handleSelectDestination_resume cIsMobile d result t)))
       = walkingRequests (effects t)" for t
  proof (cases result)
    case (Fulfilled ro)
    then show ?thesis
      by (cases ro)
         (simp_all add: handleSelectDestination_resume_failed handleSelectDestination_resume_route
            Let_def emit_def walkingRequests_append split: option.splits)
  next
    case Rejected
    then show ?thesis by (simp add: handleSelectDestination_resume_failed)
  qed
  have 5: "selectedDestination (fst (handleSelectDestination_resume cIsMobile d result t))
       = (case result of
            Fulfilled (Some realRoute) \<Rightarrow> Some (d\<lparr>route := Some realRoute\<rparr>)
          | _ \<Rightarrow> selectedDestination t)" for t
  proof (cases result)
    case (Fulfilled ro)
    then show ?thesis
      by (cases ro)
         (simp_all add: handleSelectDestination_resume_failed handleSelectDestination_resume_route
            Let_def emit_def split: option.splits)
  next
    case Rejected
    then show ?thesis by (simp add: handleSelectDestination_resume_failed)
  qed
  have 6: "destinations (fst (handleSelectDestination_resume cIsMobile d result t))
       = (case result of
            Fulfilled (Some realRoute) \<Rightarrow>
              map (\<lambda>x. if dest_id x = dest_id d then d\<lparr>route := Some realRoute\<rparr> else x) (destinations t)
          | _ \<Rightarrow> destinations t)"
  proof (cases result)
    case (Fulfilled ro)
    then show ?thesis
      by (cases ro)
         (simp_all add: handleSelectDestination_resume_failed handleSelectDestination_resume_route
            Let_def emit_def split: option.splits)
  next
    case Rejected
    then show ?thesis by (simp add: handleSelectDestination_resume_failed)
  qed
  have 7: "\<exists>realRoute. result = Fulfilled (Some realRoute) \<and> \<not> isEstimate realRoute
              \<and> x = d\<lparr>route := Some realRoute\<rparr>"
    if n: "needsRoute d"
      and x: "selectedDestination (fst (handleSelectDestination_resume cIsMobile d result ?s')) = Some x"
      and nx: "\<not> needsRoute x"
  proof (cases result)
    case (Fulfilled ro)
    show ?thesis
    proof (cases ro)
      case None
      with Fulfilled x 2 n nx show ?thesis
        by (simp add: handleSelectDestination_resume_failed)
    next
      case (Some r)
      with Fulfilled x 5 [of ?s'] have "x = d\<lparr>route := Some r\<rparr>" by simp
      moreover from this nx have "\<not> isEstimate r" by (simp add: needsRoute_def)
      ultimately show ?thesis using Fulfilled Some by simp
    qed
  next
    case Rejected
    with x 2 n nx show ?thesis by (simp add: handleSelectDestination_resume_failed)
  qed
  from 1 2 3 4 [of t] 4 [of ?s'] 5 [of t] 6 7 show ?thesis by simp
qed

theorem select_issues_one_request_witness:
  "needsRoute away \<and> \<not> needsRoute (away\<lparr>route := Some confirmedRoute\<rparr>)
   \<and> walkingRequests (effects (handleSelectDestination (Some origin) False None away settledState)) = 1
   \<and> walkingRequests (effects (fst (handleSelectDestination_resume False away (Fulfilled (Some confirmedRoute))
        (handleSelectDestination (Some origin) False None away settledState)))) = 1
   \<and> walkingRequests (effects (fst (handleSelectDestination_resume False away Rejected
        (handleSelectDestination (Some origin) False None away settledState)))) = 1
   \<and> selectedDestination (handleSelectDestination (Some origin) False None away settledState) = Some away
   \<and> selectedDestination (fst (handleSelectDestination_resume False away (Fulfilled (Some confirmedRoute))
        (handleSelectDestination (Some origin) False None away settledState)))
       = Some (away\<lparr>route := Some confirmedRoute\<rparr>)
   \<and> selectedDestination (fst (handleSelectDestination_resume False away Rejected
        (handleSelectDestination (Some origin) False None away settledState))) = Some away
   \<and> destinations (fst (handleSelectDestination_resume False away (Fulfilled (Some confirmedRoute))
        (handleSelectDestination (Some origin) False None away settledState)))
       = [away\<lparr>route := Some confirmedRoute\<rparr>, unrouted]
   \<and> walkingRequests (effects (handleSelectDestination (Some origin) False None
        (away\<lparr>route := Some confirmedRoute\<rparr>) settledState)) = 0"
proof -
  let ?s1 = "handleSelectDestination (Some origin) False None away settledState"
  let ?ok = "Fulfilled (Some confirmedRoute) :: Route option settled"
  have n: "needsRoute away" "\<not> needsRoute (away\<lparr>route := Some confirmedRoute\<rparr>)"
    by (simp_all add: needsRoute_def away_def mkDest_def mkRoute_def confirmedRoute_def)
  have e: "effects settledState = []" "destinations settledState = [away, unrouted]"
    by (simp_all add: settledState_def initialState_def)
  have i: "dest_id unrouted \<noteq> dest_id away" by (simp add: unrouted_def away_def mkDest_def)
  note A = select_issues_one_request [of "Some origin" False None away settledState ?ok ?s1 away]
  note B = select_issues_one_request [of "Some origin" False None away settledState Rejected ?s1 away]
  note C = select_issues_one_request [of "Some origin" False None
      "away\<lparr>route := Some confirmedRoute\<rparr>" settledState Rejected settledState away]
  have 1: "walkingRequests (effects ?s1) = 1"
    using A [THEN conjunct1] n(1) e(1) by simp
  have 2: "selectedDestination ?s1 = Some away"
    using A [THEN conjunct2, THEN conjunct1] .
  have 3: "destinations ?s1 = [away, unrouted]"
    using A [THEN conjunct2, THEN conjunct2, THEN conjunct1] e(2) by simp
  have 4: "walkingRequests (effects (fst (handleSelectDestination_resume False away ?ok ?s1))) = 1"
    using A [THEN conjunct2, THEN conjunct2, THEN conjunct2, THEN conjunct2, THEN conjunct1] n(1) e(1)
    by simp
  have 5: "walkingRequests (effects (fst (handleSelectDestination_resume False away Rejected ?s1))) = 1"
    using B [THEN conjunct2, THEN conjunct2, THEN conjunct2, THEN conjunct2, THEN conjunct1] n(1) e(1)
    by simp
  have 6: "selectedDestination (fst (handleSelectDestination_resume False away ?ok ?s1))
             = Some (away\<lparr>route := Some confirmedRoute\<rparr>)"
    using A [THEN conjunct2, THEN conjunct2, THEN conjunct2, THEN conjunct2, THEN conjunct2,
        THEN conjunct1]
    by simp
  have 7: "selectedDestination (fst (handleSelectDestination_resume False away Rejected ?s1)) = Some away"
    using B [THEN conjunct2, THEN conjunct2, THEN conjunct2, THEN conjunct2, THEN conjunct2,
        THEN conjunct1] 2
    by simp
  have 8: "destinations (fst (handleSelectDestination_resume False away ?ok ?s1))
             = [away\<lparr>route := Some confirmedRoute\<rparr>, unrouted]"
    using A [THEN conjunct2, THEN conjunct2, THEN conjunct2, THEN conjunct2, THEN conjunct2,
        THEN conjunct2, THEN conjunct1] 3 i
    by simp
  have 9: "walkingRequests (effects (handleSelectDestination (Some origin) False None
        (away\<lparr>route := Some confirmedRoute\<rparr>) settledState)) = 0"
    using C [THEN conjunct1] n(2) e(1) by simp
  from n 1 2 4 5 6 7 8 9 show ?thesis by blast
qed

text \<open>
  Claim C10.  A handler that holds no user location selects the destination, sends the
  camera to it (on the map, when there is one) and does nothing else: no request, the
  destination list, the loading flag and the last computed location as they were.
\<close>

theorem select_without_location:
  assumes "cUserLocation = None"
  shows "selectedDestination (handleSelectDestination cUserLocation cIsMobile cUserElevation d s) = Some d
   \<and> effects (handleSelectDestination cUserLocation cIsMobile cUserElevation d s)
       = effects s @ (if map_current s then [FlyTo (coordinates d) 14] else [])
   \<and> walkingRequests (effects (handleSelectDestination cUserLocation cIsMobile cUserElevation d s))
       = walkingRequests (effects s)
   \<and> destinations (handleSelectDestination cUserLocation cIsMobile cUserElevation d s) = destinations s
   \<and> isLoading (handleSelectDestination cUserLocation cIsMobile cUserElevation d s) = isLoading s
   \<and> lastCalcLocation (handleSelectDestination cUserLocation cIsMobile cUserElevation d s)
       = lastCalcLocation s"
  using assms
  by (simp add: handleSelectDestination_no_location Let_def emit_def walkingRequests_append)

theorem select_without_location_witness:
  "userLocation noFixState = None \<and> needsRoute unrouted \<and> needsRoute away
   \<and> selectedDestination (handleSelectDestination (userLocation noFixState) False None unrouted noFixState) = Some unrouted
   \<and> effects (handleSelectDestination (userLocation noFixState) False None unrouted noFixState)
       = [FlyTo \<lparr>lng = 9, lat = 9\<rparr> 14]
   \<and> destinations (handleSelectDestination (userLocation noFixState) False None away noFixState) = [unrouted, away]
   \<and> walkingRequests (effects (handleSelectDestination (userLocation noFixState) False None away noFixState)) = 0"
proof -
  have u: "userLocation noFixState = None" by (simp add: noFixState_def initialState_def)
  have n: "needsRoute unrouted" "needsRoute away"
    by (simp_all add: needsRoute_def unrouted_def away_def mkDest_def mkRoute_def)
  have m: "map_current noFixState" "effects noFixState = []" "destinations noFixState = [unrouted, away]"
    by (simp_all add: noFixState_def initialState_def)
  have c: "coordinates unrouted = \<lparr>lng = 9, lat = 9\<rparr>" by (simp add: unrouted_def mkDest_def)
  show ?thesis
    using select_without_location [OF u, of False None unrouted noFixState]
      select_without_location [OF u, of False None away noFixState] u n m c
    by simp
qed

subsection \<open>A routing request that fails\<close>

lemma select_failure_keeps_routes:
  "fst (handleSelectDestination_resume cIsMobile d (Fulfilled None) t) = t\<lparr>isLoading := False\<rparr>"
  "fst (handleSelectDestination_resume cIsMobile d Rejected t) = t\<lparr>isLoading := False\<rparr>"
  "snd (handleSelectDestination_resume cIsMobile d (Fulfilled None) t) = Returned"
  by (simp_all add: handleSelectDestination_resume_def)

text \<open>
  Claim C4.  The user at \<open>origin\<close> selects \<open>away\<close>, which holds an estimate, and the
  routing request rejects.  The estimate stays on the selection and in the list and the
  loading flag is reset, but the rejection is not caught: nothing is logged and the
  handler's own promise rejects.
\<close>

theorem select_rejection_not_caught:
  "snd (handleSelectDestination_resume False away Rejected
          (handleSelectDestination (Some origin) False None away settledState)) = Threw
   \<and> effects (fst (handleSelectDestination_resume False away Rejected
          (handleSelectDestination (Some origin) False None away settledState)))
       = [FlyTo \<lparr>lng = 5, lat = 0\<rparr> 14,
          GetWalkingRoute origin \<lparr>lng = 5, lat = 0\<rparr> False False None None None]
   \<and> selectedDestination (fst (handleSelectDestination_resume False away Rejected
          (handleSelectDestination (Some origin) False None away settledState))) = Some away
   \<and> destinations (fst (handleSelectDestination_resume False away Rejected
          (handleSelectDestination (Some origin) False None away settledState))) = [away, unrouted]
   \<and> isLoading (fst (handleSelectDestination_resume False away Rejected
          (handleSelectDestination (Some origin) False None away settledState))) = False"
  by (simp add: handleSelectDestination_resume_def handleSelectDestination_def needsRoute_def
      emit_def settledState_def initialState_def away_def mkDest_def mkRoute_def)

subsection \<open>The displacement threshold\<close>

lemma updateRoutes_idle:
  "userLocation s = None \<or> destinations s = [] \<or> isLoading s \<or> \<not> isLocChanged getDistance s
     \<Longrightarrow> updateRoutes getDistance s = s"
  by (auto simp: updateRoutes_def split: option.splits)

lemma updateRoutes_requests:
  "curationRequests (effects (updateRoutes getDistance s)) \<noteq> curationRequests (effects s)
     \<Longrightarrow> userLocation s \<noteq> None \<and> destinations s \<noteq> [] \<and> \<not> isLoading s \<and> isLocChanged getDistance s"
  by (cases "userLocation s") (auto simp: updateRoutes_def split: if_splits)

text \<open>
  Claim C5.  Once a recompute has recorded its location \<open>l\<close>: a location change to a
  point at most 20 from \<open>l\<close>, and an elevation change while the user is at most 20 from
  \<open>l\<close>, change nothing but the location or elevation itself (no curation request, the
  destination list as it was); and a change that does send a curation request has the
  user more than 20 from \<open>l\<close>.
\<close>

theorem recuration_needs_displacement:
  assumes "lastCalcLocation s = Some l"
  shows "(getDistance c l \<le> 20 \<longrightarrow>
            userLocationChanged getDistance c s = s\<lparr>userLocation := Some c\<rparr>)
       \<and> (\<forall>u. userLocation s = Some u \<and> getDistance u l \<le> 20 \<longrightarrow>
            userElevationChanged getDistance e s = s\<lparr>userElevation := Some e\<rparr>)
       \<and> (curationRequests (effects (userLocationChanged getDistance c s)) \<noteq> curationRequests (effects s)
            \<longrightarrow> getDistance c l > 20)
       \<and> (curationRequests (effects (userElevationChanged getDistance e s)) \<noteq> curationRequests (effects s)
            \<longrightarrow> (\<exists>u. userLocation s = Some u \<and> getDistance u l > 20))"
proof -
  have 1: "userLocationChanged getDistance c s = s\<lparr>userLocation := Some c\<rparr>"
    if "getDistance c l \<le> 20"
    unfolding userLocationChanged_def
    by (rule updateRoutes_idle) (use that assms in \<open>simp add: isLocChanged_def\<close>)
  have 2: "userElevationChanged getDistance e s = s\<lparr>userElevation := Some e\<rparr>"
    if "userLocation s = Some u" "getDistance u l \<le> 20" for u
    unfolding userElevationChanged_def
    by (rule updateRoutes_idle) (use that assms in \<open>simp add: isLocChanged_def\<close>)
  have 3: "getDistance c l > 20"
    if "curationRequests (effects (userLocationChanged getDistance c s)) \<noteq> curationRequests (effects s)"
  proof (rule ccontr)
    assume "\<not> getDistance c l > 20"
    then have "userLocationChanged getDistance c s = s\<lparr>userLocation := Some c\<rparr>"
      using 1 by simp
    with that show False by simp
  qed
  have 4: "\<exists>u. userLocation s = Some u \<and> getDistance u l > 20"
    if "curationRequests (effects (userElevationChanged getDistance e s)) \<noteq> curationRequests (effects s)"
  proof -
    from that have "isLocChanged getDistance (s\<lparr>userElevation := Some e\<rparr>)"
      "userLocation (s\<lparr>userElevation := Some e\<rparr>) \<noteq> None"
      using updateRoutes_requests [of getDistance "s\<lparr>userElevation := Some e\<rparr>"]
      by (simp_all add: userElevationChanged_def)
    with assms show ?thesis by (auto simp: isLocChanged_def split: option.splits)
  qed
  from 1 2 3 4 show ?thesis by blast
qed

theorem recuration_needs_displacement_witness:
  "lastCalcLocation settledState = Some origin
   \<and> exampleDistance \<lparr>lng = 12, lat = 8\<rparr> origin \<le> 20
   \<and> userLocationChanged exampleDistance \<lparr>lng = 12, lat = 8\<rparr> settledState
       = settledState\<lparr>userLocation := Some \<lparr>lng = 12, lat = 8\<rparr>\<rparr>
   \<and> userLocation settledState = Some origin \<and> exampleDistance origin origin \<le> 20
   \<and> userElevationChanged exampleDistance 35 settledState = settledState\<lparr>userElevation := Some 35\<rparr>
   \<and> exampleDistance \<lparr>lng = 30, lat = 0\<rparr> origin > 20
   \<and> curationRequests (effects (userLocationChanged exampleDistance \<lparr>lng = 30, lat = 0\<rparr> settledState))
       \<noteq> curationRequests (effects settledState)"
proof -
  have l: "lastCalcLocation settledState = Some origin" and u: "userLocation settledState = Some origin"
    by (simp_all add: settledState_def initialState_def)
  have d: "exampleDistance \<lparr>lng = 12, lat = 8\<rparr> origin \<le> 20" "exampleDistance origin origin \<le> 20"
    "exampleDistance \<lparr>lng = 30, lat = 0\<rparr> origin > 20"
    by (simp_all add: exampleDistance_def origin_def)
  have f: "curationRequests (effects (userLocationChanged exampleDistance \<lparr>lng = 30, lat = 0\<rparr> settledState))
       \<noteq> curationRequests (effects settledState)"
    by (simp add: userLocationChanged_def updateRoutes_def isLocChanged_def emit_def settledState_def
        initialState_def exampleDistance_def origin_def)
  show ?thesis
    using recuration_needs_displacement [OF l, of exampleDistance "\<lparr>lng = 12, lat = 8\<rparr>" 35]
      l u d f by simp
qed

subsection \<open>One re-curation at a time\<close>

lemma applyUpdate_loading:
  "isLoading s \<Longrightarrow>
     isLoading (applyUpdate getDistance up s) \<and> effects (applyUpdate getDistance up s) = effects s
     \<and> destinations (applyUpdate getDistance up s) = destinations s
     \<and> lastCalcLocation (applyUpdate getDistance up s) = lastCalcLocation s
     \<and> selectedDestination (applyUpdate getDistance up s) = selectedDestination s"
  by (cases up) (simp_all add: userLocationChanged_def userElevationChanged_def updateRoutes_idle)

lemma applyUpdates_loading:
  "isLoading s \<Longrightarrow>
     isLoading (applyUpdates getDistance ups s) \<and> effects (applyUpdates getDistance ups s) = effects s
     \<and> destinations (applyUpdates getDistance ups s) = destinations s
     \<and> lastCalcLocation (applyUpdates getDistance ups s) = lastCalcLocation s
     \<and> selectedDestination (applyUpdates getDistance ups s) = selectedDestination s"
proof (induction ups arbitrary: s)
  case Nil
  then show ?case by simp
next
  case (Cons up ups)
  from Cons.prems have a: "isLoading (applyUpdate getDistance up s)"
    "effects (applyUpdate getDistance up s) = effects s"
    "destinations (applyUpdate getDistance up s) = destinations s"
    "lastCalcLocation (applyUpdate getDistance up s) = lastCalcLocation s"
    "selectedDestination (applyUpdate getDistance up s) = selectedDestination s"
    using applyUpdate_loading [of s getDistance up] by simp_all
  from Cons.IH [OF a(1)] a show ?case by simp
qed

lemma updateRoutes_resume_settles: "\<not> isLoading (updateRoutes_resume sel result s)"
  by (cases result) (simp_all add: updateRoutes_resume_def Let_def emit_def split: option.splits)

text \<open>
  While the loading flag is set, no sequence of location and elevation
  updates starts a re-curation: the calls that left the component are the same after the
  updates as before, so no curation request was added, and the flag, the destination
  list and the last computed location are as they were.  When the pending curation
  request settles, fulfilled or rejected, the flag is cleared.
\<close>

theorem no_recuration_while_loading:
  assumes "isLoading s"
  shows "effects (applyUpdates getDistance ups s) = effects s
       \<and> curationRequests (effects (applyUpdates getDistance ups s)) = curationRequests (effects s)
       \<and> isLoading (applyUpdates getDistance ups s)
       \<and> destinations (applyUpdates getDistance ups s) = destinations s
       \<and> lastCalcLocation (applyUpdates getDistance ups s) = lastCalcLocation s
       \<and> \<not> isLoading (updateRoutes_resume sel result (applyUpdates getDistance ups s))"
  using applyUpdates_loading [OF assms, of getDistance ups] updateRoutes_resume_settles
  by simp

theorem no_recuration_while_loading_witness:
  "isLoading pendingState
   \<and> length (curationRequests (effects pendingState)) = 1
   \<and> curationRequests (effects (applyUpdates exampleDistance exampleUpdates pendingState))
       = curationRequests (effects pendingState)
   \<and> isLoading (applyUpdates exampleDistance exampleUpdates pendingState)
   \<and> \<not> isLoading (updateRoutes_resume None Rejected
          (applyUpdates exampleDistance exampleUpdates pendingState))
   \<and> length (curationRequests (effects (userLocationChanged exampleDistance \<lparr>lng = 130, lat = 0\<rparr>
          (updateRoutes_resume None Rejected
             (applyUpdates exampleDistance exampleUpdates pendingState))))) = 2"
proof -
  have p: "pendingState = firstFix\<lparr>isLoading := True, lastCalcLocation := Some origin,
             effects := [CurateDestinations
               (map (withEstimate exampleDistance origin None) (destinations firstFix))]\<rparr>"
    by (simp add: pendingState_def updateRoutes_def isLocChanged_def emit_def firstFix_def
        initialState_def)
  have l: "isLoading pendingState" by (simp add: p)
  have n: "length (curationRequests (effects pendingState)) = 1" by (simp add: p)
  note w = no_recuration_while_loading [OF l, of exampleDistance exampleUpdates None Rejected]
  let ?t = "applyUpdates exampleDistance exampleUpdates pendingState"
  have t: "?t = pendingState\<lparr>userLocation := Some \<lparr>lng = 90, lat = 0\<rparr>, userElevation := Some 12\<rparr>"
    using l by (simp add: exampleUpdates_def userLocationChanged_def userElevationChanged_def
        updateRoutes_idle)
  have r: "length (curationRequests (effects (userLocationChanged exampleDistance \<lparr>lng = 130, lat = 0\<rparr>
          (updateRoutes_resume None Rejected ?t)))) = 2"
    by (simp only: t)
       (simp add: p userLocationChanged_def updateRoutes_resume_def updateRoutes_def
          isLocChanged_def emit_def firstFix_def initialState_def exampleDistance_def origin_def
          curationRequests_append)
  show ?thesis using w l n r by simp
qed

text \<open>
  Claim C6.  A second re-curation can start before the first one settles.  The loading
  flag is shared with the selection handler, which sets it before its routing request
  and clears it in its \<^verbatim>\<open>finally\<close>.  In \<open>pendingState\<close> one curation request has been sent
  and has not settled, and a location change to a point 130 away sends no second one.
  The user then selects the listed \<open>placeB\<close>, which has no route; whatever the outcome
  of the routing request, the flag is clear afterwards, and the same location change
  now sends a second curation request, with the first still unsettled.
\<close>

theorem second_recuration_while_first_pending:
  "isLoading pendingState
   \<and> length (curationRequests (effects pendingState)) = 1
   \<and> placeB \<in> set (destinations pendingState)
   \<and> length (curationRequests (effects (applyUpdates exampleDistance [LocationUpdate \<lparr>lng = 130, lat = 0\<rparr>]
        pendingState))) = 1
   \<and> \<not> isLoading (fst (handleSelectDestination_resume False placeB result
          (handleSelectDestination (Some origin) False None placeB pendingState)))
   \<and> length (curationRequests (effects (applyUpdates exampleDistance [LocationUpdate \<lparr>lng = 130, lat = 0\<rparr>]
        (fst (handleSelectDestination_resume False placeB result
          (handleSelectDestination (Some origin) False None placeB pendingState)))))) = 2"
proof -
  have p: "pendingState = firstFix\<lparr>isLoading := True, lastCalcLocation := Some origin,
             effects := [CurateDestinations
               (map (withEstimate exampleDistance origin None) (destinations firstFix))]\<rparr>"
    by (simp add: pendingState_def updateRoutes_def isLocChanged_def emit_def firstFix_def
        initialState_def)
  let ?s = "handleSelectDestination (Some origin) False None placeB pendingState"
  have s: "?s = pendingState\<lparr>selectedDestination := Some placeB,
                  effects := effects pendingState @
                    [FlyTo \<lparr>lng = 0, lat = 40\<rparr> 14,
                     GetWalkingRoute origin \<lparr>lng = 0, lat = 40\<rparr> False False None None None]\<rparr>"
    by (simp add: p handleSelectDestination_def needsRoute_def emit_def firstFix_def
        initialState_def placeB_def mkDest_def)
  have a: "isLoading pendingState" "length (curationRequests (effects pendingState)) = 1"
    "placeB \<in> set (destinations pendingState)"
    by (simp_all add: p firstFix_def placeB_def)
  have b: "length (curationRequests (effects (applyUpdates exampleDistance
             [LocationUpdate \<lparr>lng = 130, lat = 0\<rparr>] pendingState))) = 1"
    by (simp add: p userLocationChanged_def updateRoutes_def)
  have f: "length (curationRequests (effects (applyUpdates exampleDistance
             [LocationUpdate \<lparr>lng = 130, lat = 0\<rparr>] t))) = 2"
    if "\<not> isLoading t" "destinations t \<noteq> []" "lastCalcLocation t = Some origin"
      "length (curationRequests (effects t)) = 1" for t
    using that
    by (simp add: userLocationChanged_def updateRoutes_def isLocChanged_def emit_def
        exampleDistance_def origin_def curationRequests_append)
  have s': "destinations ?s \<noteq> []" "lastCalcLocation ?s = Some origin"
    "length (curationRequests (effects ?s)) = 1"
    unfolding s by (simp_all add: p firstFix_def curationRequests_append)
  let ?t = "fst (handleSelectDestination_resume False placeB result ?s)"
  have t: "\<not> isLoading ?t \<and> destinations ?t \<noteq> [] \<and> lastCalcLocation ?t = Some origin
             \<and> length (curationRequests (effects ?t)) = 1"
  proof (cases result)
    case (Fulfilled ro)
    show ?thesis
    proof (cases ro)
      case None
      with Fulfilled s' show ?thesis by (simp add: handleSelectDestination_resume_failed)
    next
      case (Some r)
      with Fulfilled s' show ?thesis
        by (cases "geometry r")
           (simp_all add: handleSelectDestination_resume_route Let_def emit_def
              curationRequests_append)
    qed
  next
    case Rejected
    with s' show ?thesis by (simp add: handleSelectDestination_resume_failed)
  qed
  from a b t f [of ?t] show ?thesis by simp
qed

subsection \<open>A curation request that fails\<close>

lemma destinations_updateRoutes: "destinations (updateRoutes getDistance s) = destinations s"
  by (cases "userLocation s") (simp_all add: updateRoutes_def emit_def Let_def)

lemma destinations_applyUpdates: "destinations (applyUpdates getDistance ups s) = destinations s"
proof (induction ups arbitrary: s)
  case Nil
  show ?case by simp
next
  case (Cons up ups)
  have "destinations (applyUpdate getDistance up s) = destinations s"
    by (cases up)
       (simp_all add: userLocationChanged_def userElevationChanged_def destinations_updateRoutes)
  with Cons.IH [of "applyUpdate getDistance up s"] show ?case by simp
qed

lemma updateRoutes_resume_Rejected:
  "updateRoutes_resume sel Rejected t = t\<lparr>effects := effects t @ [ConsoleError], isLoading := False\<rparr>"
  by (simp add: updateRoutes_resume_def emit_def)

text \<open>
  Claim C7.  When the curation request rejects, the continuation logs the error and
  returns: the state it leaves is the state it found with the error appended to the log
  and the loading flag cleared, so the destination list and the selection are what they
  were at the failure; and the list is still the one the attempt started from, whatever
  location and elevation updates arrived while the request was pending.
\<close>

theorem curation_failure_keeps_list:
  "updateRoutes_resume sel Rejected t = t\<lparr>effects := effects t @ [ConsoleError], isLoading := False\<rparr>
   \<and> destinations (updateRoutes_resume sel Rejected t) = destinations t
   \<and> selectedDestination (updateRoutes_resume sel Rejected t) = selectedDestination t
   \<and> destinations (updateRoutes_resume sel Rejected
        (applyUpdates getDistance ups (updateRoutes getDistance s))) = destinations s"
  by (simp add: updateRoutes_resume_Rejected destinations_applyUpdates destinations_updateRoutes)

theorem curation_failure_keeps_list_witness:
  "destinations (updateRoutes_resume None Rejected pendingState) = destinations firstFix
   \<and> effects (updateRoutes_resume None Rejected pendingState)
       = effects pendingState @ [ConsoleError]
   \<and> destinations (updateRoutes_resume None Rejected
        (applyUpdates exampleDistance exampleUpdates pendingState))
       = [mkDest ''a'' Cafe 100 0 None, mkDest ''b'' Bar 0 40 None]"
proof -
  have d: "destinations firstFix = [mkDest ''a'' Cafe 100 0 None, mkDest ''b'' Bar 0 40 None]"
    by (simp add: firstFix_def)
  show ?thesis
    using curation_failure_keeps_list [of None pendingState exampleDistance "[]" firstFix]
      curation_failure_keeps_list [of None pendingState exampleDistance exampleUpdates firstFix] d
    by (simp add: pendingState_def destinations_updateRoutes)
qed

subsection \<open>The category filter\<close>

text \<open>
  Claim C8.  For either category, the filter installs the seed entries of that category,
  in seed order, and clears the selection; so does the variant that also moves the
  camera.  A seed list with three bars therefore gives a list of three.
\<close>

theorem category_filter_installs_matches:
  "destinations (handleCategoryFilter seed ty s) = filter (\<lambda>p. category p = ty) seed
   \<and> selectedDestination (handleCategoryFilter seed ty s) = None
   \<and> destinations (handleCategoryFilter_flyTo seed ty s) = filter (\<lambda>p. category p = ty) seed
   \<and> selectedDestination (handleCategoryFilter_flyTo seed ty s) = None
   \<and> set (destinations (handleCategoryFilter seed ty s)) = {p \<in> set seed. category p = ty}
   \<and> (length (filter (\<lambda>p. category p = Bar) seed) = 3 \<longrightarrow>
        length (destinations (handleCategoryFilter seed Bar s)) = 3)"
proof -
  have 1: "destinations (handleCategoryFilter seed ty s) = filter (\<lambda>p. category p = ty) seed"
    for ty by (simp add: handleCategoryFilter_def Let_def)
  have 2: "selectedDestination (handleCategoryFilter seed ty s) = None"
    by (simp add: handleCategoryFilter_def Let_def)
  have 3: "destinations (handleCategoryFilter_flyTo seed ty s) = destinations (handleCategoryFilter seed ty s)"
    by (simp add: handleCategoryFilter_flyTo_def Let_def emit_def split: list.splits)
  have 4: "selectedDestination (handleCategoryFilter_flyTo seed ty s)
             = selectedDestination (handleCategoryFilter seed ty s)"
    by (simp add: handleCategoryFilter_flyTo_def Let_def emit_def split: list.splits)
  from 1 2 3 4 show ?thesis by simp
qed

theorem category_filter_installs_matches_witness:
  "length (filter (\<lambda>p. category p = Bar) exampleSeed) = 3
   \<and> length (filter (\<lambda>p. category p = Cafe) exampleSeed) = 2
   \<and> selectedDestination selectedState = Some away
   \<and> length (destinations (handleCategoryFilter exampleSeed Bar selectedState)) = 3
   \<and> map dest_id (destinations (handleCategoryFilter exampleSeed Bar selectedState)) = [''bar1'', ''bar2'', ''bar3'']
   \<and> selectedDestination (handleCategoryFilter exampleSeed Bar selectedState) = None"
proof -
  have f: "filter (\<lambda>p. category p = Bar) exampleSeed
             = [mkDest ''bar1'' Bar 1 1 None, mkDest ''bar2'' Bar 3 3 None, mkDest ''bar3'' Bar 5 5 None]"
    "length (filter (\<lambda>p. category p = Cafe) exampleSeed) = 2"
    by (simp_all add: exampleSeed_def mkDest_def)
  have s: "selectedDestination selectedState = Some away" by (simp add: selectedState_def)
  have i: "map dest_id [mkDest ''bar1'' Bar 1 1 None, mkDest ''bar2'' Bar 3 3 None, mkDest ''bar3'' Bar 5 5 None]
             = [''bar1'', ''bar2'', ''bar3'']"
    by (simp add: mkDest_def)
  show ?thesis
    using category_filter_installs_matches [of exampleSeed Bar selectedState] f s i by simp
qed

subsection \<open>The last computed location after a failure\<close>

text \<open>
  Claim C9.  An attempt that starts at user location \<open>u\<close> records \<open>u\<close> as the last
  computed location in the step that sends the curation request, and a rejection leaves
  it there.  After the rejection a location change to \<open>c\<close> sends a new curation request
  when \<open>c\<close> is more than 20 from \<open>u\<close>, and changes nothing but the location when it is
  not; the location recorded before the attempt plays no part.
\<close>

theorem failed_attempt_moves_reference:
  assumes "userLocation s = Some u" and "destinations s \<noteq> []" and "\<not> isLoading s"
    and "isLocChanged getDistance s"
  shows "lastCalcLocation (updateRoutes getDistance s) = Some u
       \<and> curationRequests (effects (updateRoutes getDistance s))
           = curationRequests (effects s)
               @ [map (withEstimate getDistance u (userElevation s)) (destinations s)]
       \<and> lastCalcLocation (updateRoutes_resume sel Rejected (updateRoutes getDistance s)) = Some u
       \<and> (getDistance c u > 20 \<longrightarrow>
            curationRequests (effects (userLocationChanged getDistance c
                (updateRoutes_resume sel Rejected (updateRoutes getDistance s))))
              = curationRequests (effects (updateRoutes getDistance s))
                  @ [map (withEstimate getDistance c (userElevation s)) (destinations s)])
       \<and> (getDistance c u \<le> 20 \<longrightarrow>
            userLocationChanged getDistance c
                (updateRoutes_resume sel Rejected (updateRoutes getDistance s))
              = (updateRoutes_resume sel Rejected (updateRoutes getDistance s))\<lparr>userLocation := Some c\<rparr>)"
proof -
  let ?s1 = "updateRoutes getDistance s"
  let ?s2 = "updateRoutes_resume sel Rejected ?s1"
  have s1: "?s1 = s\<lparr>isLoading := True, lastCalcLocation := Some u,
             effects := effects s @
               [CurateDestinations (map (withEstimate getDistance u (userElevation s)) (destinations s))]\<rparr>"
    using assms by (rule updateRoutes_fires)
  have a: "lastCalcLocation ?s1 = Some u" by (simp add: s1)
  have b: "curationRequests (effects ?s1) = curationRequests (effects s)
               @ [map (withEstimate getDistance u (userElevation s)) (destinations s)]"
    by (simp add: s1 curationRequests_append)
  have s2: "?s2 = ?s1\<lparr>effects := effects ?s1 @ [ConsoleError], isLoading := False\<rparr>"
    by (rule updateRoutes_resume_Rejected)
  have c: "lastCalcLocation ?s2 = Some u" by (simp add: s2 a)
  have f: "userLocation (?s2\<lparr>userLocation := Some c\<rparr>) = Some c"
    "destinations (?s2\<lparr>userLocation := Some c\<rparr>) \<noteq> []"
    "\<not> isLoading (?s2\<lparr>userLocation := Some c\<rparr>)"
    "userElevation (?s2\<lparr>userLocation := Some c\<rparr>) = userElevation s"
    "destinations (?s2\<lparr>userLocation := Some c\<rparr>) = destinations s"
    "effects (?s2\<lparr>userLocation := Some c\<rparr>) = effects ?s1 @ [ConsoleError]"
    using assms(2) by (simp_all add: s2) (simp_all add: s1)
  have g: "isLocChanged getDistance (?s2\<lparr>userLocation := Some c\<rparr>) \<longleftrightarrow> getDistance c u > 20"
    using c by (simp add: isLocChanged_def)
  have d: "curationRequests (effects (userLocationChanged getDistance c ?s2))
              = curationRequests (effects ?s1)
                  @ [map (withEstimate getDistance c (userElevation s)) (destinations s)]"
    if "getDistance c u > 20"
    unfolding userLocationChanged_def
    using updateRoutes_fires [OF f(1) f(2) f(3), of getDistance] that g f(4) f(5) f(6)
    by (simp add: curationRequests_append)
  have e: "userLocationChanged getDistance c ?s2 = ?s2\<lparr>userLocation := Some c\<rparr>"
    if "getDistance c u \<le> 20"
    unfolding userLocationChanged_def
    by (rule updateRoutes_idle) (use that g in simp)
  from a b c d e show ?thesis by blast
qed

theorem failed_attempt_moves_reference_witness:
  "userLocation movedState = Some \<lparr>lng = 30, lat = 0\<rparr> \<and> destinations movedState \<noteq> [] \<and> \<not> isLoading movedState
   \<and> isLocChanged exampleDistance movedState
   \<and> lastCalcLocation movedState = Some origin
   \<and> lastCalcLocation (updateRoutes_resume None Rejected (updateRoutes exampleDistance movedState))
       = Some \<lparr>lng = 30, lat = 0\<rparr>
   \<and> exampleDistance \<lparr>lng = 45, lat = 0\<rparr> origin > 20
   \<and> exampleDistance \<lparr>lng = 45, lat = 0\<rparr> \<lparr>lng = 30, lat = 0\<rparr> \<le> 20
   \<and> userLocationChanged exampleDistance \<lparr>lng = 45, lat = 0\<rparr>
        (updateRoutes_resume None Rejected (updateRoutes exampleDistance movedState))
       = (updateRoutes_resume None Rejected (updateRoutes exampleDistance movedState))
           \<lparr>userLocation := Some \<lparr>lng = 45, lat = 0\<rparr>\<rparr>"
proof -
  have h: "userLocation movedState = Some \<lparr>lng = 30, lat = 0\<rparr>" "destinations movedState \<noteq> []" "\<not> isLoading movedState"
    "isLocChanged exampleDistance movedState"
    by (simp_all add: movedState_def settledState_def initialState_def isLocChanged_def exampleDistance_def origin_def)
  have l: "lastCalcLocation movedState = Some origin" by (simp add: movedState_def settledState_def)
  have d: "exampleDistance \<lparr>lng = 45, lat = 0\<rparr> origin > 20"
    "exampleDistance \<lparr>lng = 45, lat = 0\<rparr> \<lparr>lng = 30, lat = 0\<rparr> \<le> 20"
    by (simp_all add: exampleDistance_def origin_def)
  show ?thesis
    using failed_attempt_moves_reference [OF h, of None "\<lparr>lng = 45, lat = 0\<rparr>"] h l d
    by simp
qed

end
